theory Spec2Isabelle
  imports Complex_Main
begin

section \<open>Day planner (trips/route_service.py, generate_hos_compliant_plan)\<close>

text \<open>
  Python floats are idealised as real numbers: every arithmetic step of the source is taken
  exactly. \<open>math.floor\<close> and \<open>math.ceil\<close> return Python ints, here \<open>int\<close>.
  The per-day dictionary built by the planner is a record with the dictionary's seven keys;
  the optional key \<open>is_final_day\<close>, which only the log generator reads with
  \<open>.get('is_final_day', False)\<close>, is \<open>None\<close> when the key is absent.
\<close>

record daily_plan =
  day :: int
  driving_hours :: real
  distance_miles :: real
  fuel_stops :: int
  mandatory_breaks :: int
  total_on_duty :: real
  pickup_dropoff_time :: real
  is_final_day :: "bool option"

record plan_summary =
  total_on_duty_time :: real
  mandatory_break_time :: real
  fuel_stop_time :: real
  summary_pickup_dropoff_time :: real

record hos_plan =
  total_distance :: real
  total_driving_hours :: real
  total_days_needed :: int
  total_fuel_stops :: int
  remaining_cycle_hours :: real
  cycle_compliant :: bool
  daily_plans :: "daily_plan list"
  summary :: plan_summary

text \<open>The HOS constants of the source (property-carrying, 70 hours in 8 days).\<close>

abbreviation (input) max_driving_daily :: real where "max_driving_daily \<equiv> 11"
abbreviation (input) max_on_duty_daily :: real where "max_on_duty_daily \<equiv> 14"
abbreviation (input) max_cycle_hours :: real where "max_cycle_hours \<equiv> 70"
abbreviation (input) mandatory_break_after :: real where "mandatory_break_after \<equiv> 8"
abbreviation (input) fuel_stop_interval :: real where "fuel_stop_interval \<equiv> 1000"

text \<open>The local values computed before the loop, one definition per assignment.\<close>

definition fuel_stops_needed :: "real \<Rightarrow> int" where
  "fuel_stops_needed distance = \<lceil>distance / fuel_stop_interval\<rceil> - 1"

definition mandatory_breaks_needed :: "real \<Rightarrow> int" where
  "mandatory_breaks_needed duration = \<lfloor>duration / mandatory_break_after\<rfloor>"

definition total_on_duty_needed :: "real \<Rightarrow> real \<Rightarrow> real" where
  "total_on_duty_needed distance duration =
     duration + real_of_int (fuel_stops_needed distance) * 0.5 + 2.0"

definition total_time_with_breaks :: "real \<Rightarrow> real \<Rightarrow> real" where
  "total_time_with_breaks distance duration =
     total_on_duty_needed distance duration
       + real_of_int (mandatory_breaks_needed duration) * 0.5"

definition days_needed :: "real \<Rightarrow> real \<Rightarrow> int" where
  "days_needed distance duration =
     \<lceil>total_time_with_breaks distance duration / max_on_duty_daily\<rceil>"

text \<open>
  The \<open>while remaining_distance > 0 and current_day <= days_needed\<close> loop. The first
  two arguments are the loop-invariant inputs, the third the day bound, the last three the
  loop variables; each iteration appends one dictionary to \<open>daily_plans\<close>.
\<close>

function plan_loop ::
  "real \<Rightarrow> real \<Rightarrow> int \<Rightarrow> real \<Rightarrow> real \<Rightarrow> int \<Rightarrow> daily_plan list" where
  "plan_loop distance duration dn remaining_distance remaining_driving current_day =
     (if remaining_distance > 0 \<and> current_day \<le> dn then
        (let max_driving_today = min max_driving_daily remaining_driving;
             avg_speed = (if duration > 0 then distance / duration else 55);
             distance_today = max_driving_today * avg_speed;
             fuel_stops_today =
               (if distance_today \<ge> fuel_stop_interval
                then \<lfloor>distance_today / fuel_stop_interval\<rfloor> else 0);
             breaks_today = \<lfloor>max_driving_today / mandatory_break_after\<rfloor>;
             plan = \<lparr> day = current_day,
                      driving_hours = max_driving_today,
                      distance_miles = distance_today,
                      fuel_stops = fuel_stops_today,
                      mandatory_breaks = breaks_today,
                      total_on_duty =
                        max_driving_today + real_of_int fuel_stops_today * 0.5
                          + (if current_day = 1 then 1 else 0)
                          + (if remaining_distance - distance_today \<le> 0 then 1 else 0),
                      pickup_dropoff_time = (if current_day = 1 then 2.0 else 0),
                      is_final_day = None \<rparr>
         in plan # plan_loop distance duration dn
                     (remaining_distance - distance_today)
                     (remaining_driving - max_driving_today)
                     (current_day + 1))
      else [])"
  by pat_completeness auto
termination
  by (relation "measure (\<lambda>(distance, duration, dn, rd, rh, current_day). nat (dn + 1 - current_day))")
     auto

declare plan_loop.simps [simp del]

definition generate_hos_compliant_plan :: "real \<Rightarrow> real \<Rightarrow> real \<Rightarrow> hos_plan" where
  "generate_hos_compliant_plan distance duration current_cycle_used =
     \<lparr> total_distance = distance,
       total_driving_hours = duration,
       total_days_needed = days_needed distance duration,
       total_fuel_stops = fuel_stops_needed distance,
       remaining_cycle_hours = max_cycle_hours - current_cycle_used,
       cycle_compliant =
         (total_time_with_breaks distance duration \<le> max_cycle_hours - current_cycle_used),
       daily_plans =
         plan_loop distance duration (days_needed distance duration) distance duration 1,
       summary =
         \<lparr> total_on_duty_time = total_on_duty_needed distance duration,
           mandatory_break_time = real_of_int (mandatory_breaks_needed duration) * 0.5,
           fuel_stop_time = real_of_int (fuel_stops_needed distance) * 0.5,
           summary_pickup_dropoff_time = 2.0 \<rparr> \<rparr>"

text \<open>
  The dictionary appended by one iteration of the planner loop, as a function of the loop
  variables (the same expressions as in \<open>plan_loop\<close>); used to state facts about one
  iteration.
\<close>

definition loop_entry :: "real \<Rightarrow> real \<Rightarrow> real \<Rightarrow> real \<Rightarrow> int \<Rightarrow> daily_plan" where
  "loop_entry distance duration rd rh cd =
     (let m = min 11 rh; d = m * (if duration > 0 then distance / duration else 55);
          f = (if d \<ge> 1000 then \<lfloor>d / 1000\<rfloor> else 0)
      in \<lparr> day = cd, driving_hours = m, distance_miles = d, fuel_stops = f,
           mandatory_breaks = \<lfloor>m / 8\<rfloor>,
           total_on_duty = m + real_of_int f * 0.5 + (if cd = 1 then 1 else 0)
                             + (if rd - d \<le> 0 then 1 else 0),
           pickup_dropoff_time = (if cd = 1 then 2.0 else 0), is_final_day = None \<rparr>)"

section \<open>ELD log generator (trips/eld_log_generator.py)\<close>

text \<open>
  A duty-status change. The \<open>time\<close> key holds the string produced by
  \<open>strftime('%H:%M')\<close>, modelled as the pair (hour, minute). Simulated clock values
  are minutes since midnight of the log date, as reals; the rounding of \<open>timedelta\<close>
  to microseconds is not modelled.
\<close>

datatype duty_status = OFF_DUTY | SLEEPER_BERTH | DRIVING | ON_DUTY_NOT_DRIVING

record duty_event =
  status :: duty_status
  time :: "nat \<times> nat"
  location :: string
  odometer :: real
  event_notes :: string

definition strftime_HM :: "real \<Rightarrow> nat \<times> nat" where
  "strftime_HM t = (let m = nat \<lfloor>t\<rfloor> in ((m div 60) mod 24, m mod 60))"

text \<open>\<open>datetime.strptime(s, '%H:%M')\<close>, as minutes since midnight.\<close>

definition strptime_HM :: "nat \<times> nat \<Rightarrow> nat" where
  "strptime_HM hm = fst hm * 60 + snd hm"

text \<open>Python's \<open>int(x)\<close> on a float truncates towards zero; \<open>str\<close> of an int.\<close>

definition py_int :: "real \<Rightarrow> int" where
  "py_int x = (if x \<ge> 0 then \<lfloor>x\<rfloor> else \<lceil>x\<rceil>)"

fun digits :: "nat \<Rightarrow> string" where
  "digits n = (if n < 10 then [''0123456789'' ! n]
               else digits (n div 10) @ [''0123456789'' ! (n mod 10)])"

declare digits.simps [simp del]

definition str_int :: "int \<Rightarrow> string" where
  "str_int i = (if i < 0 then CHR ''-'' # digits (nat (- i)) else digits (nat i))"

definition interpolate_location :: "real \<Rightarrow> real \<Rightarrow> string \<Rightarrow> string \<Rightarrow> string" where
  "interpolate_location distance_covered total_dist start_loc end_loc =
     (if total_dist = 0 then start_loc
      else (let progress = distance_covered / total_dist in
            if progress < 0.3 then ''En route from '' @ start_loc
            else if progress < 0.7
              then ''Highway - '' @ str_int (py_int (progress * 100)) @ ''% to destination''
            else ''Approaching '' @ end_loc))"

text \<open>
  \<open>_calculate_odometer\<close>: the loop over \<open>range(day_idx)\<close> adds the distance of every
  plan whose index exists in the list it is given.
\<close>

definition calculate_odometer :: "nat \<Rightarrow> daily_plan list \<Rightarrow> int \<Rightarrow> int" where
  "calculate_odometer day_idx plans base_odometer =
     base_odometer
       + py_int (fold (\<lambda>i total. if i < length plans then total + distance_miles (plans ! i)
                                   else total) [0..<day_idx] 0)"

text \<open>
  \<open>len(daily_plan)\<close> is the number of keys of the day's dictionary: the seven keys the
  planner writes, and \<open>is_final_day\<close> when present.
\<close>

definition dict_len :: "daily_plan \<Rightarrow> nat" where
  "dict_len p = 7 + (case is_final_day p of None \<Rightarrow> 0 | Some b \<Rightarrow> 1)"

definition dropoff_day :: "daily_plan \<Rightarrow> nat \<Rightarrow> bool" where
  "dropoff_day p day_idx =
     (int day_idx = int (dict_len p) - 1 \<or> (case is_final_day p of None \<Rightarrow> False | Some b \<Rightarrow> b))"

text \<open>
  The \<open>while remaining_driving > 0\<close> loop of \<open>_generate_duty_status_changes\<close>. It
  returns the events appended by the loop and the clock value after it.
\<close>

function driving_loop ::
  "daily_plan \<Rightarrow> nat \<Rightarrow> string \<Rightarrow> string \<Rightarrow> real \<Rightarrow> real \<Rightarrow> real \<Rightarrow> duty_event list \<times> real" where
  "driving_loop p day_idx pickup_loc dropoff_loc current_time distance_covered remaining_driving =
     (if remaining_driving > 0 then
        (let driving_segment = min 8 remaining_driving;
             total_dist = distance_miles p;
             base = real_of_int (calculate_odometer day_idx [] 250000);
             begin_ev = \<lparr> status = DRIVING, time = strftime_HM current_time,
                       location = interpolate_location distance_covered total_dist
                                    pickup_loc dropoff_loc,
                       odometer = base + distance_covered,
                       event_notes = ''Begin driving'' \<rparr>;
             segment_distance = (driving_segment / driving_hours p) * total_dist;
             fuel_time = current_time + 60 * (driving_segment / 2);
             fuel_distance = distance_covered + segment_distance / 2;
             fuel =
               (if fuel_stops p > 0 \<and> segment_distance > 500 then
                  [\<lparr> status = ON_DUTY_NOT_DRIVING, time = strftime_HM fuel_time,
                      location = ''Fuel Stop - '' @ interpolate_location fuel_distance
                                   total_dist pickup_loc dropoff_loc,
                      odometer = base + fuel_distance,
                      event_notes = ''Fueling - 30 minutes'' \<rparr>,
                   \<lparr> status = DRIVING, time = strftime_HM (fuel_time + 30),
                      location = ''Fuel Stop - '' @ interpolate_location fuel_distance
                                   total_dist pickup_loc dropoff_loc,
                      odometer = base + fuel_distance,
                      event_notes = ''Resume driving after fuel'' \<rparr>]
                else []);
             current_time1 = current_time + 60 * driving_segment;
             distance_covered1 = distance_covered + segment_distance;
             remaining_driving1 = remaining_driving - driving_segment;
             take_break = (remaining_driving1 > 0 \<and> driving_segment \<ge> 8);
             break_ev = (if take_break then
                        [\<lparr> status = OFF_DUTY, time = strftime_HM current_time1,
                            location = ''Rest Area'',
                            odometer = base + distance_covered1,
                            event_notes = ''Mandatory 30-minute break after 8 hours driving'' \<rparr>]
                      else []);
             current_time2 = (if take_break then current_time1 + 30 else current_time1)
         in case driving_loop p day_idx pickup_loc dropoff_loc
                   current_time2 distance_covered1 remaining_driving1 of
              (later, end_time) \<Rightarrow> (begin_ev # fuel @ break_ev @ later, end_time))
      else ([], current_time))"
  by pat_completeness auto
termination
proof (relation "measure (\<lambda>(p, day_idx, pickup_loc, dropoff_loc, t, dc, r). nat \<lceil>r\<rceil>)",
    goal_cases)
  case 1
  show ?case by simp
next
  case (2 p day_idx pickup_loc dropoff_loc current_time distance_covered r)
  have "nat \<lceil>r - min 8 r\<rceil> < nat \<lceil>r\<rceil>"
  proof (cases "r \<le> 8")
    case True
    then have "r - min 8 r = 0" by simp
    moreover have "0 < \<lceil>r\<rceil>" using \<open>0 < r\<close> by simp
    ultimately show ?thesis by simp
  next
    case False
    then have "r - min 8 r = r - 8" by simp
    moreover have "\<lceil>r - 8\<rceil> = \<lceil>r\<rceil> - 8" by linarith
    moreover have "8 < \<lceil>r\<rceil>" using False by (simp add: less_ceiling_iff)
    ultimately show ?thesis by simp
  qed
  then show ?case using 2 by simp
qed

declare driving_loop.simps [simp del]

text \<open>
  \<open>_generate_duty_status_changes\<close>. The clock starts at 06:00 (minute 360) of the log
  date; only its time of day is ever written to an event, so the date itself is not an
  argument here.
\<close>

definition generate_duty_status_changes ::
  "daily_plan \<Rightarrow> nat \<Rightarrow> string \<Rightarrow> string \<Rightarrow> string \<Rightarrow> duty_event list" where
  "generate_duty_status_changes p day_idx current_loc pickup_loc dropoff_loc =
     (let base = real_of_int (calculate_odometer day_idx [] 250000);
          start_loc = (if day_idx = 0 then current_loc else ''Rest Area'');
          time0 = 360;
          opening =
            (if day_idx > 0 then
               [\<lparr> status = OFF_DUTY, time = strftime_HM time0, location = start_loc,
                   odometer = base,
                   event_notes = ''End of required 10-hour off-duty period'' \<rparr>]
             else []);
          time1 = time0 + 15;
          pre_trip =
            [\<lparr> status = ON_DUTY_NOT_DRIVING, time = strftime_HM time1, location = start_loc,
                odometer = base, event_notes = ''Pre-trip inspection'' \<rparr>];
          pickup =
            (if day_idx = 0 then
               [\<lparr> status = ON_DUTY_NOT_DRIVING, time = strftime_HM (time1 + 45),
                   location = pickup_loc, odometer = base + 50,
                   event_notes = ''Arrived at pickup location'' \<rparr>,
                \<lparr> status = ON_DUTY_NOT_DRIVING, time = strftime_HM (time1 + 45 + 60),
                   location = pickup_loc, odometer = base + 50,
                   event_notes = ''Completed pickup - ready to drive'' \<rparr>]
             else []);
          time2 = (if day_idx = 0 then time1 + 45 + 60 else time1);
          total_dist = distance_miles p
      in case driving_loop p day_idx pickup_loc dropoff_loc time2 0 (driving_hours p) of
           (driving_events, time3) \<Rightarrow>
             (let dropoff =
                    (if dropoff_day p day_idx then
                       [\<lparr> status = ON_DUTY_NOT_DRIVING, time = strftime_HM time3,
                           location = dropoff_loc, odometer = base + total_dist,
                           event_notes = ''Arrived at delivery location'' \<rparr>,
                        \<lparr> status = ON_DUTY_NOT_DRIVING, time = strftime_HM (time3 + 60),
                           location = dropoff_loc, odometer = base + total_dist,
                           event_notes = ''Completed delivery'' \<rparr>]
                     else []);
                  time4 = (if dropoff_day p day_idx then time3 + 60 else time3);
                  end_loc = (if int day_idx = int (dict_len p) - 1 then dropoff_loc
                             else ''Rest Area'');
                  closing =
                    [\<lparr> status = ON_DUTY_NOT_DRIVING, time = strftime_HM (time4 + 15),
                        location = end_loc, odometer = base + total_dist,
                        event_notes = ''Post-trip inspection'' \<rparr>,
                     \<lparr> status = OFF_DUTY, time = strftime_HM (time4 + 15 + 15),
                        location = end_loc, odometer = base + total_dist,
                        event_notes = ''Begin 10-hour off-duty period'' \<rparr>]
              in opening @ pre_trip @ pickup @ driving_events @ dropoff @ closing))"

text \<open>\<open>_calculate_daily_totals\<close>: hours per duty status over adjacent event pairs.\<close>

record totals =
  driving :: real
  on_duty_not_driving :: real
  sleeper_berth :: real
  off_duty :: real

definition pair_duration :: "duty_event \<Rightarrow> duty_event \<Rightarrow> real" where
  "pair_duration change next_change =
     (let current_minutes = strptime_HM (time change);
          next_minutes = strptime_HM (time next_change);
          next_minutes = (if next_minutes < current_minutes then next_minutes + 1440
                          else next_minutes)
      in (real next_minutes - real current_minutes) * 60 / 3600)"

fun add_hours :: "duty_status \<Rightarrow> real \<Rightarrow> totals \<Rightarrow> totals" where
  "add_hours DRIVING d t = t\<lparr>driving := driving t + d\<rparr>"
| "add_hours ON_DUTY_NOT_DRIVING d t = t\<lparr>on_duty_not_driving := on_duty_not_driving t + d\<rparr>"
| "add_hours SLEEPER_BERTH d t = t\<lparr>sleeper_berth := sleeper_berth t + d\<rparr>"
| "add_hours OFF_DUTY d t = t\<lparr>off_duty := off_duty t + d\<rparr>"

fun totals_loop :: "totals \<Rightarrow> duty_event list \<Rightarrow> totals" where
  "totals_loop t (change # next_change # rest) =
     totals_loop (add_hours (status change) (pair_duration change next_change) t)
       (next_change # rest)"
| "totals_loop t [change] = t"
| "totals_loop t [] = t"

definition calculate_daily_totals :: "duty_event list \<Rightarrow> totals" where
  "calculate_daily_totals changes =
     totals_loop \<lparr> driving = 0, on_duty_not_driving = 0, sleeper_berth = 0, off_duty = 0 \<rparr>
       changes"

definition check_hos_compliance :: "totals \<Rightarrow> bool" where
  "check_hos_compliance t =
     (driving t \<le> max_driving_daily \<and> driving t + on_duty_not_driving t \<le> max_on_duty_daily)"

text \<open>
  The scan of \<open>_check_violations\<close> for more than 16 driving entries in a row; the result
  says whether the loop reached its \<open>break\<close>.
\<close>

fun break_scan :: "nat \<Rightarrow> duty_event list \<Rightarrow> bool" where
  "break_scan consecutive_driving [] = False"
| "break_scan consecutive_driving (change # rest) =
     (let consecutive = (if status change = DRIVING then consecutive_driving + 1
                         else if status change = OFF_DUTY \<or> status change = SLEEPER_BERTH
                           then 0
                         else consecutive_driving)
      in if consecutive > 16 then True else break_scan consecutive rest)"

text \<open>
  Fixed-point formatting \<open>format(x, '.nf')\<close>, on the real number the float stands for:
  the value is rounded to \<open>n\<close> decimals, ties to the even digit, and printed with at
  least one digit before the point.
\<close>

definition round_half_even :: "real \<Rightarrow> int" where
  "round_half_even y =
     (let f = \<lfloor>y\<rfloor>; d = y - real_of_int f
      in if d < 1 / 2 then f else if d > 1 / 2 then f + 1
         else if even f then f else f + 1)"

definition format_fixed :: "nat \<Rightarrow> real \<Rightarrow> string" where
  "format_fixed n x =
     (let s = digits (nat (round_half_even (\<bar>x\<bar> * 10 ^ n)));
          padded = replicate (Suc n - length s) (CHR ''0'') @ s;
          whole = take (length padded - n) padded;
          frac = drop (length padded - n) padded
      in (if x < 0 then ''-'' else []) @ whole @ (if n = 0 then [] else CHR ''.'' # frac))"

text \<open>\<open>_check_violations\<close>; the messages are f-strings with \<open>:.1f\<close> fields.\<close>

definition check_violations :: "totals \<Rightarrow> duty_event list \<Rightarrow> string list" where
  "check_violations t changes =
     (if driving t > max_driving_daily
      then [''Exceeded maximum daily driving time: '' @ format_fixed 1 (driving t) @ ''h > 11h'']
      else [])
     @ (if driving t + on_duty_not_driving t > max_on_duty_daily
        then [''Exceeded maximum daily on-duty time: ''
                @ format_fixed 1 (driving t + on_duty_not_driving t) @ ''h > 14h'']
        else [])
     @ (if break_scan 0 changes
        then [''Drove more than 8 hours without mandatory 30-minute break'']
        else [])"

text \<open>\<open>_generate_log_sheet_grid\<close>: 96 quarter-hour slots, off duty by default.\<close>

record log_sheet =
  grid :: "duty_status list"
  time_slots :: "string list"

definition slot_of :: "nat \<times> nat \<Rightarrow> nat" where
  "slot_of hm = fst hm * 4 + snd hm div 15"

fun grid_loop :: "duty_status list \<Rightarrow> duty_event list \<Rightarrow> duty_status list" where
  "grid_loop g (change # next_change # rest) =
     (let start_slot = slot_of (time change);
          end_slot = min 96 (slot_of (time next_change))
      in grid_loop
           (fold (\<lambda>slot g. if slot < 96 then g[slot := status change] else g)
              [start_slot..<end_slot] g)
           (next_change # rest))"
| "grid_loop g [change] = g"
| "grid_loop g [] = g"

definition two_digits :: "nat \<Rightarrow> string" where
  "two_digits n = (if n < 10 then CHR ''0'' # digits n else digits n)"

definition generate_log_sheet_grid :: "duty_event list \<Rightarrow> log_sheet" where
  "generate_log_sheet_grid changes =
     \<lparr> grid = grid_loop (replicate 96 OFF_DUTY) changes,
       time_slots = concat (map (\<lambda>h. map (\<lambda>m. two_digits h @ '':'' @ two_digits m)
                                       [0, 15, 30, 45]) [0..<24]) \<rparr>"

text \<open>
  \<open>_format_location\<close>: a missing or too short coordinate list is \<open>None\<close>.
\<close>

definition format_location :: "(real \<times> real) option \<Rightarrow> string" where
  "format_location coords =
     (case coords of None \<Rightarrow> ''Unknown Location''
      | Some (lat, lon) \<Rightarrow> format_fixed 4 lat @ '', '' @ format_fixed 4 lon)"

record coordinates =
  current :: "(real \<times> real) option"
  pickup :: "(real \<times> real) option"
  dropoff :: "(real \<times> real) option"

record trip_plan =
  trip_coordinates :: coordinates
  trip_hos_plan :: hos_plan

text \<open>
  Calendar dates are day numbers (as \<open>date.toordinal\<close>); parsing and printing
  \<open>'%Y-%m-%d'\<close> are not modelled beyond the three kinds of argument: a falsy one
  (\<open>None\<close> or the empty string), a well-formed date string, and a string that
  \<open>strptime\<close> rejects with \<open>ValueError\<close>.
\<close>

type_synonym date = int

datatype start_date_arg = NoDate | DateString date | BadDateString

datatype py_error = ValueError | OverflowError

record daily_log =
  date :: date
  day_of_trip :: nat
  driver_name :: string
  duty_status_changes :: "duty_event list"
  total_drive_time :: real
  total_on_duty_time_log :: real
  total_sleeper_berth_time :: real
  total_off_duty_time :: real
  distance_traveled :: real
  log_fuel_stops :: int
  log_mandatory_breaks :: int
  odometer_start :: int
  odometer_end :: int
  vehicle_id :: string
  trailer_id :: string
  carrier_name :: string
  hos_compliant :: bool
  violations :: "string list"
  log_sheet_data :: log_sheet

text \<open>The body of the \<open>for day_idx, daily_plan in enumerate(daily_plans)\<close> loop.\<close>

definition day_log ::
  "date \<Rightarrow> string \<Rightarrow> string \<Rightarrow> string \<Rightarrow> daily_plan list
     \<Rightarrow> nat \<Rightarrow> daily_plan \<Rightarrow> daily_log" where
  "day_log start_datetime current_location pickup_location dropoff_location plans
     day_idx p =
     (let changes = generate_duty_status_changes p day_idx
                      current_location pickup_location dropoff_location;
          t = calculate_daily_totals changes
      in \<lparr> date = start_datetime + int day_idx,
           day_of_trip = day_idx + 1,
           driver_name = ''Commercial Driver'',
           duty_status_changes = changes,
           total_drive_time = driving t,
           total_on_duty_time_log = on_duty_not_driving t + driving t,
           total_sleeper_berth_time = sleeper_berth t,
           total_off_duty_time = off_duty t,
           distance_traveled = distance_miles p,
           log_fuel_stops = fuel_stops p,
           log_mandatory_breaks = mandatory_breaks p,
           odometer_start = calculate_odometer day_idx plans 250000,
           odometer_end = calculate_odometer (day_idx + 1) plans 250000,
           vehicle_id = ''TRUCK001'',
           trailer_id = ''TRAILER001'',
           carrier_name = ''Commercial Carrier'',
           hos_compliant = check_hos_compliance t,
           violations = check_violations t changes,
           log_sheet_data = generate_log_sheet_grid changes \<rparr>)"

text \<open>
  \<open>generate_daily_logs\<close>. The argument \<open>now\<close> is the date \<open>datetime.now()\<close> would
  return; the source reads it only when \<open>start_date\<close> is falsy. \<open>daily_logs_from\<close> is
  the function body after \<open>start_datetime\<close> has been parsed.
\<close>

definition daily_logs_from ::
  "date \<Rightarrow> trip_plan \<Rightarrow> daily_log list" where
  "daily_logs_from start_datetime tp =
     (let current_location = format_location (current (trip_coordinates tp));
          pickup_location = format_location (pickup (trip_coordinates tp));
          dropoff_location = format_location (dropoff (trip_coordinates tp));
          plans = daily_plans (trip_hos_plan tp)
      in map (\<lambda>(day_idx, p).
                day_log start_datetime current_location pickup_location
                  dropoff_location plans day_idx p)
           (enumerate 0 plans))"

definition generate_daily_logs ::
  "date \<Rightarrow> trip_plan \<Rightarrow> start_date_arg \<Rightarrow> py_error + daily_log list" where
  "generate_daily_logs now tp start_date =
     (case start_date of
        NoDate \<Rightarrow> Inr (daily_logs_from now tp)
      | DateString start_datetime \<Rightarrow> Inr (daily_logs_from start_datetime tp)
      | BadDateString \<Rightarrow> Inl ValueError)"

text \<open>
  One iteration of the driving loop, as functions of the loop variables (the same
  expressions as in \<open>driving_loop\<close>): the events it appends and the clock it leaves.
  They are used to state facts about one iteration.
\<close>

definition segment_distance :: "daily_plan \<Rightarrow> real \<Rightarrow> real" where
  "segment_distance p r = (min 8 r / driving_hours p) * distance_miles p"

definition takes_break :: "real \<Rightarrow> bool" where
  "takes_break r = (r - min 8 r > 0 \<and> min 8 r \<ge> 8)"

definition next_time :: "real \<Rightarrow> real \<Rightarrow> real" where
  "next_time t r = (if takes_break r then t + 60 * min 8 r + 30 else t + 60 * min 8 r)"

definition segment_events ::
  "daily_plan \<Rightarrow> nat \<Rightarrow> string \<Rightarrow> string \<Rightarrow> real \<Rightarrow> real \<Rightarrow> real \<Rightarrow> duty_event list" where
  "segment_events p day_idx pickup_loc dropoff_loc t dc r =
     [\<lparr> status = DRIVING, time = strftime_HM t,
         location = interpolate_location dc (distance_miles p) pickup_loc dropoff_loc,
         odometer = real_of_int (calculate_odometer day_idx [] 250000) + dc,
         event_notes = ''Begin driving'' \<rparr>]
     @ (if fuel_stops p > 0 \<and> segment_distance p r > 500 then
          [\<lparr> status = ON_DUTY_NOT_DRIVING, time = strftime_HM (t + 60 * (min 8 r / 2)),
              location = ''Fuel Stop - '' @ interpolate_location (dc + segment_distance p r / 2)
                           (distance_miles p) pickup_loc dropoff_loc,
              odometer = real_of_int (calculate_odometer day_idx [] 250000)
                           + (dc + segment_distance p r / 2),
              event_notes = ''Fueling - 30 minutes'' \<rparr>,
           \<lparr> status = DRIVING, time = strftime_HM (t + 60 * (min 8 r / 2) + 30),
              location = ''Fuel Stop - '' @ interpolate_location (dc + segment_distance p r / 2)
                           (distance_miles p) pickup_loc dropoff_loc,
              odometer = real_of_int (calculate_odometer day_idx [] 250000)
                           + (dc + segment_distance p r / 2),
              event_notes = ''Resume driving after fuel'' \<rparr>]
        else [])
     @ (if takes_break r then
          [\<lparr> status = OFF_DUTY, time = strftime_HM (t + 60 * min 8 r),
              location = ''Rest Area'',
              odometer = real_of_int (calculate_odometer day_idx [] 250000)
                           + (dc + segment_distance p r),
              event_notes = ''Mandatory 30-minute break after 8 hours driving'' \<rparr>]
        else [])"

text \<open>
  The events \<open>_generate_duty_status_changes\<close> appends before and after the driving loop, as
  functions of their inputs (the same expressions as in \<open>generate_duty_status_changes\<close>),
  and the clock value at which the loop starts.
\<close>

definition opening_events :: "nat \<Rightarrow> string \<Rightarrow> string \<Rightarrow> duty_event list" where
  "opening_events day_idx current_loc pickup_loc =
     (if day_idx > 0 then
        [\<lparr> status = OFF_DUTY, time = strftime_HM 360,
            location = (if day_idx = 0 then current_loc else ''Rest Area''),
            odometer = real_of_int (calculate_odometer day_idx [] 250000),
            event_notes = ''End of required 10-hour off-duty period'' \<rparr>]
      else [])
     @ [\<lparr> status = ON_DUTY_NOT_DRIVING, time = strftime_HM (360 + 15),
           location = (if day_idx = 0 then current_loc else ''Rest Area''),
           odometer = real_of_int (calculate_odometer day_idx [] 250000),
           event_notes = ''Pre-trip inspection'' \<rparr>]
     @ (if day_idx = 0 then
          [\<lparr> status = ON_DUTY_NOT_DRIVING, time = strftime_HM (360 + 15 + 45),
              location = pickup_loc,
              odometer = real_of_int (calculate_odometer day_idx [] 250000) + 50,
              event_notes = ''Arrived at pickup location'' \<rparr>,
           \<lparr> status = ON_DUTY_NOT_DRIVING, time = strftime_HM (360 + 15 + 45 + 60),
              location = pickup_loc,
              odometer = real_of_int (calculate_odometer day_idx [] 250000) + 50,
              event_notes = ''Completed pickup - ready to drive'' \<rparr>]
        else [])"

definition driving_start :: "nat \<Rightarrow> real" where
  "driving_start day_idx = (if day_idx = 0 then 360 + 15 + 45 + 60 else 360 + 15)"

definition closing_events :: "daily_plan \<Rightarrow> nat \<Rightarrow> string \<Rightarrow> real \<Rightarrow> duty_event list" where
  "closing_events p day_idx dropoff_loc time3 =
     (if dropoff_day p day_idx then
        [\<lparr> status = ON_DUTY_NOT_DRIVING, time = strftime_HM time3, location = dropoff_loc,
            odometer = real_of_int (calculate_odometer day_idx [] 250000) + distance_miles p,
            event_notes = ''Arrived at delivery location'' \<rparr>,
         \<lparr> status = ON_DUTY_NOT_DRIVING, time = strftime_HM (time3 + 60),
            location = dropoff_loc,
            odometer = real_of_int (calculate_odometer day_idx [] 250000) + distance_miles p,
            event_notes = ''Completed delivery'' \<rparr>]
      else [])
     @ [\<lparr> status = ON_DUTY_NOT_DRIVING,
           time = strftime_HM ((if dropoff_day p day_idx then time3 + 60 else time3) + 15),
           location = (if int day_idx = int (dict_len p) - 1 then dropoff_loc
                       else ''Rest Area''),
           odometer = real_of_int (calculate_odometer day_idx [] 250000) + distance_miles p,
           event_notes = ''Post-trip inspection'' \<rparr>,
         \<lparr> status = OFF_DUTY,
           time = strftime_HM ((if dropoff_day p day_idx then time3 + 60 else time3) + 15 + 15),
           location = (if int day_idx = int (dict_len p) - 1 then dropoff_loc
                       else ''Rest Area''),
           odometer = real_of_int (calculate_odometer day_idx [] 250000) + distance_miles p,
           event_notes = ''Begin 10-hour off-duty period'' \<rparr>]"

text \<open>The time of an event read back as minutes of the day, as the totals code does.\<close>

definition minute_of :: "duty_event \<Rightarrow> nat" where
  "minute_of e = strptime_HM (time e)"

text \<open>
  The two places where an event may carry the same time as the event before it: the first
  \<open>Begin driving\<close> of a day, appended at the clock value of the on-duty event before
  it, and the arrival at the delivery location, appended at the clock value at which the
  driving loop ended.
\<close>

definition tie_allowed :: "duty_event \<Rightarrow> duty_event \<Rightarrow> bool" where
  "tie_allowed a b =
     ((status a = ON_DUTY_NOT_DRIVING \<and> status b = DRIVING \<and> event_notes b = ''Begin driving'')
      \<or> event_notes b = ''Arrived at delivery location'')"



section \<open>Facts about the planner\<close>

lemma ceiling_one_divide_numeral [simp]:
  "\<lceil>1 / numeral b :: real\<rceil> = - (- 1 div numeral b)"
  using ceiling_divide_eq_div [of 1 "numeral b"] by simp

lemmas planner_defs = generate_hos_compliant_plan_def days_needed_def
  total_time_with_breaks_def total_on_duty_needed_def fuel_stops_needed_def
  mandatory_breaks_needed_def

lemma plan_loop_step:
  "rd > 0 \<Longrightarrow> cd \<le> dn \<Longrightarrow>
   plan_loop distance duration dn rd rh cd =
     loop_entry distance duration rd rh cd #
     plan_loop distance duration dn
       (rd - min 11 rh * (if duration > 0 then distance / duration else 55))
       (rh - min 11 rh) (cd + 1)"
  by (subst plan_loop.simps) (simp add: Let_def loop_entry_def)

lemma plan_loop_done:
  "\<not> (rd > 0 \<and> cd \<le> dn) \<Longrightarrow> plan_loop distance duration dn rd rh cd = []"
  by (subst plan_loop.simps) (simp only: if_False)





lemma loop_entry_fields:
  "driving_hours (loop_entry distance duration rd rh cd) = min 11 rh"
  "distance_miles (loop_entry distance duration rd rh cd) =
     min 11 rh * (if duration > 0 then distance / duration else 55)"
  by (simp_all add: loop_entry_def Let_def)

lemma plan_loop_induct [case_names step]:
  fixes P :: "real \<Rightarrow> real \<Rightarrow> int \<Rightarrow> real \<Rightarrow> real \<Rightarrow> int \<Rightarrow> bool"
  assumes "\<And>distance duration dn rd rh cd.
     (rd > 0 \<and> cd \<le> dn \<Longrightarrow>
        P distance duration dn
          (rd - min 11 rh * (if duration > 0 then distance / duration else 55))
          (rh - min 11 rh) (cd + 1))
       \<Longrightarrow> P distance duration dn rd rh cd"
  shows "P distance duration dn rd rh cd"
proof (induction distance duration dn rd rh cd rule: plan_loop.induct)
  case (1 distance duration dn rd rh cd)
  show ?case
  proof (rule assms)
    assume c: "rd > 0 \<and> cd \<le> dn"
    show "P distance duration dn
          (rd - min 11 rh * (if duration > 0 then distance / duration else 55))
          (rh - min 11 rh) (cd + 1)"
      by (rule "1.IH" [OF c refl refl refl refl refl refl])
  qed
qed

lemma plan_loop_covers:
  "0 < duration \<Longrightarrow> 0 < distance \<Longrightarrow> 0 \<le> rh \<Longrightarrow> rd = rh * (distance / duration) \<Longrightarrow>
   rh \<le> 11 * real_of_int (dn + 1 - cd) \<Longrightarrow>
   sum_list (map driving_hours (plan_loop distance duration dn rd rh cd)) = rh
   \<and> sum_list (map distance_miles (plan_loop distance duration dn rd rh cd)) = rd"
proof (induction distance duration dn rd rh cd rule: plan_loop_induct)
  case (step distance duration dn rd rh cd)
  have v: "0 < distance / duration" using step.prems(1,2) by simp
  show ?case
  proof (cases "rd > 0 \<and> cd \<le> dn")
    case False
    have "rh = 0"
    proof (cases "rd > 0")
      case True
      define k where "k = real_of_int (dn + 1 - cd)"
      from True False have "dn + 1 - cd \<le> 0" by simp
      then have "k \<le> 0" unfolding k_def by (simp only: of_int_le_0_iff)
      moreover have "rh \<le> 11 * k" using step.prems(5) by (simp only: k_def)
      ultimately show ?thesis using step.prems(3) by linarith
    next
      case nonpos: False
      then have le: "rh * (distance / duration) \<le> 0" using step.prems(4) by simp
      have "rh \<le> 0"
      proof (rule ccontr)
        assume "\<not> rh \<le> 0"
        then have "0 < rh * (distance / duration)" using v by (intro mult_pos_pos) simp_all
        with le show False by linarith
      qed
      with step.prems(3) show ?thesis by simp
    qed
    with False step.prems(4) show ?thesis by (simp add: plan_loop_done)
  next
    case True
    let ?m = "min 11 rh"
    let ?v = "if duration > 0 then distance / duration else 55"
    have veq: "?v = distance / duration" using step.prems(1) by simp
    have m: "0 \<le> rh - ?m" using step.prems(3) by simp
    have rd': "rd - ?m * ?v = (rh - ?m) * (distance / duration)"
      unfolding veq step.prems(4) by (simp only: left_diff_distrib)
    have days: "rh - ?m \<le> 11 * real_of_int (dn + 1 - (cd + 1))"
    proof (cases "rh \<le> 11")
      case le: True
      then have "rh - ?m = 0" by simp
      moreover have "0 \<le> real_of_int (dn + 1 - (cd + 1))" using True by simp
      ultimately show ?thesis by simp
    next
      case gt: False
      then have "?m = 11" by simp
      then show ?thesis using step.prems(5) by simp
    qed
    note IH = step.IH [OF True step.prems(1,2) m rd' days]
    have st: "plan_loop distance duration dn rd rh cd =
        loop_entry distance duration rd rh cd #
        plan_loop distance duration dn (rd - ?m * ?v) (rh - ?m) (cd + 1)"
      using True by (simp only: plan_loop_step)
    have "sum_list (map driving_hours (plan_loop distance duration dn rd rh cd))
          = ?m + (rh - ?m)"
      unfolding st using IH by (simp only: list.map sum_list.Cons loop_entry_fields)
    moreover have "sum_list (map distance_miles (plan_loop distance duration dn rd rh cd))
          = ?m * ?v + (rd - ?m * ?v)"
      unfolding st using IH by (simp only: list.map sum_list.Cons loop_entry_fields)
    ultimately show ?thesis by simp
  qed
qed

text \<open>
  When the day bound leaves enough days for the driving hours at 11 hours a day, the loop
  runs until the distance is used up and the daily entries add up to the inputs exactly.
\<close>

lemma plan_covers_trip_when_days_suffice:
  assumes "0 < duration" "0 < distance"
    and "duration \<le> 11 * real_of_int (days_needed distance duration)"
  shows "sum_list (map driving_hours
            (daily_plans (generate_hos_compliant_plan distance duration cycle))) = duration
       \<and> sum_list (map distance_miles
            (daily_plans (generate_hos_compliant_plan distance duration cycle))) = distance"
proof -
  have "distance = duration * (distance / duration)" using assms(1) by simp
  moreover have "duration \<le> 11 * real_of_int (days_needed distance duration + 1 - 1)"
    using assms(3) by simp
  moreover have "0 \<le> duration" using assms(1) by simp
  ultimately show ?thesis
    using plan_loop_covers [OF assms(1,2), of duration distance "days_needed distance duration" 1]
    by (simp add: generate_hos_compliant_plan_def)
qed

text \<open>
  C4. On distance 500 miles, duration 9 hours and 0 cycle hours used, the planner needs one
  day, no fuel stop and one mandatory break (\<open>mandatory_break_time\<close> is that one break
  times 0.5 h), and returns a single day with 9 driving hours whose on-duty time contains
  both the pickup hour and the dropoff hour (9 + 1 + 1).
\<close>

theorem scenario_single_day:
  "generate_hos_compliant_plan 500 9 0 =
     \<lparr> total_distance = 500, total_driving_hours = 9, total_days_needed = 1,
       total_fuel_stops = 0, remaining_cycle_hours = 70, cycle_compliant = True,
       daily_plans =
         [\<lparr> day = 1, driving_hours = 9, distance_miles = 500, fuel_stops = 0,
            mandatory_breaks = 1, total_on_duty = 9 + 1 + 1, pickup_dropoff_time = 2,
            is_final_day = None \<rparr>],
       summary = \<lparr> total_on_duty_time = 11, mandatory_break_time = 1 * 0.5,
                   fuel_stop_time = 0, summary_pickup_dropoff_time = 2 \<rparr> \<rparr>
   \<and> mandatory_breaks_needed 9 = 1"
  by (simp add: planner_defs plan_loop.simps Let_def)

text \<open>
  C1. The claim: the daily distances add up to the input distance and the daily driving hours
  to the input duration. The day bound \<open>days_needed\<close> is derived from the 14-hour on-duty
  window, while a day drives at most 11 hours: for 500 miles in 11.5 hours the bound is one
  day, the loop stops after it, and the plan covers 11 of the 11.5 hours and 11000/23 (about
  478.26) of the 500 miles.
\<close>

theorem plan_cut_short_by_day_bound:
  "total_days_needed (generate_hos_compliant_plan 500 (23 / 2) 0) = 1
   \<and> map driving_hours (daily_plans (generate_hos_compliant_plan 500 (23 / 2) 0)) = [11]
   \<and> map distance_miles (daily_plans (generate_hos_compliant_plan 500 (23 / 2) 0))
        = [11000 / 23]
   \<and> sum_list (map driving_hours (daily_plans (generate_hos_compliant_plan 500 (23 / 2) 0)))
        < 23 / 2 - 1 / 1000
   \<and> sum_list (map distance_miles (daily_plans (generate_hos_compliant_plan 500 (23 / 2) 0)))
        < 500 - 1 / 1000"
  by (simp add: planner_defs plan_loop.simps Let_def)




text \<open>
  C3, as stated, fails: the planner has no validation step. For 100 miles with a duration of
  -1 hour it returns an ordinary result whose single day has -1 driving hours and -55 miles.
\<close>

theorem negative_duration_plan_returned:
  "generate_hos_compliant_plan 100 (- 1) 0 =
     \<lparr> total_distance = 100, total_driving_hours = - 1, total_days_needed = 1,
       total_fuel_stops = 0, remaining_cycle_hours = 70, cycle_compliant = True,
       daily_plans =
         [\<lparr> day = 1, driving_hours = - 1, distance_miles = - 55, fuel_stops = 0,
            mandatory_breaks = - 1, total_on_duty = 0, pickup_dropoff_time = 2,
            is_final_day = None \<rparr>],
       summary = \<lparr> total_on_duty_time = 1, mandatory_break_time = - (1 / 2),
                   fuel_stop_time = 0, summary_pickup_dropoff_time = 2 \<rparr> \<rparr>"
  by (simp add: planner_defs plan_loop.simps Let_def)

text \<open>
  C3, amended. The planner validates nothing and always returns a result. When the distance
  is zero or negative (which covers a negative distance and the inconsistent pair of a
  positive duration with zero distance), the result is the ordinary record with an empty
  list of days and the trip-level fields computed from the raw inputs.
\<close>

theorem no_validation_empty_plan:
  "distance \<le> 0 \<Longrightarrow>
   generate_hos_compliant_plan distance duration cycle =
     \<lparr> total_distance = distance, total_driving_hours = duration,
       total_days_needed = days_needed distance duration,
       total_fuel_stops = fuel_stops_needed distance,
       remaining_cycle_hours = 70 - cycle,
       cycle_compliant = (total_time_with_breaks distance duration \<le> 70 - cycle),
       daily_plans = [],
       summary = \<lparr> total_on_duty_time = total_on_duty_needed distance duration,
                   mandatory_break_time = real_of_int (mandatory_breaks_needed duration) * 0.5,
                   fuel_stop_time = real_of_int (fuel_stops_needed distance) * 0.5,
                   summary_pickup_dropoff_time = 2 \<rparr> \<rparr>"
  by (simp add: generate_hos_compliant_plan_def plan_loop_done)

theorem no_validation_empty_plan_witness:
  "(0::real) \<le> 0 \<and>
   generate_hos_compliant_plan 0 5 0 =
     \<lparr> total_distance = 0, total_driving_hours = 5, total_days_needed = 1,
       total_fuel_stops = - 1, remaining_cycle_hours = 70, cycle_compliant = True,
       daily_plans = [],
       summary = \<lparr> total_on_duty_time = 13 / 2, mandatory_break_time = 0,
                   fuel_stop_time = - (1 / 2), summary_pickup_dropoff_time = 2 \<rparr> \<rparr>"
  using no_validation_empty_plan [of 0 5 0]
  by (simp add: days_needed_def total_time_with_breaks_def total_on_duty_needed_def
      fuel_stops_needed_def mandatory_breaks_needed_def)


section \<open>Facts about the log generator\<close>

lemma driving_loop_step:
  "r > 0 \<Longrightarrow>
   driving_loop p day_idx pl dl t dc r =
     (case driving_loop p day_idx pl dl (next_time t r) (dc + segment_distance p r) (r - min 8 r) of
        (later, end_time) \<Rightarrow> (segment_events p day_idx pl dl t dc r @ later, end_time))"
  by (subst driving_loop.simps)
     (simp add: Let_def segment_events_def next_time_def takes_break_def segment_distance_def
        split: prod.split)

lemma driving_loop_done:
  "\<not> r > 0 \<Longrightarrow> driving_loop p day_idx pl dl t dc r = ([], t)"
  by (subst driving_loop.simps) (simp only: if_False)

lemma driving_loop_induct [case_names step]:
  fixes P :: "daily_plan \<Rightarrow> nat \<Rightarrow> string \<Rightarrow> string \<Rightarrow> real \<Rightarrow> real \<Rightarrow> real \<Rightarrow> bool"
  assumes "\<And>p day_idx pl dl t dc r.
     (r > 0 \<Longrightarrow> P p day_idx pl dl (next_time t r) (dc + segment_distance p r) (r - min 8 r))
       \<Longrightarrow> P p day_idx pl dl t dc r"
  shows "P p day_idx pl dl t dc r"
proof (induction p day_idx pl dl t dc r rule: driving_loop.induct)
  case (1 p day_idx pl dl t dc r)
  show ?case
  proof (rule assms)
    assume pos: "r > 0"
    show "P p day_idx pl dl (next_time t r) (dc + segment_distance p r) (r - min 8 r)"
      unfolding next_time_def takes_break_def segment_distance_def
      by (rule "1.IH" [OF pos refl refl refl refl refl refl refl refl refl refl refl refl refl refl])
  qed
qed

lemma calculate_odometer_no_plans: "calculate_odometer day_idx [] base = base"
proof -
  have "fold (\<lambda>i total. if i < length ([]::daily_plan list) then total + distance_miles ([] ! i) else total) xs (0::real) = 0" for xs :: "nat list"
    by (induction xs) simp_all
  then show ?thesis by (simp add: calculate_odometer_def py_int_def)
qed







lemmas expander_defs = generate_duty_status_changes_def Let_def strftime_HM_def
  calculate_odometer_no_plans dropoff_day_def dict_len_def interpolate_location_def
  py_int_def str_int_def

text \<open>
  For a dictionary without the \<open>is_final_day\<close> key, as the planner builds it, the
  dropoff branch is taken on the seventh day of a trip and on no other day.
\<close>

lemma dropoff_day_without_flag:
  "is_final_day p = None \<Longrightarrow> dropoff_day p day_idx = (day_idx = 6)"
  by (auto simp: dropoff_day_def dict_len_def)

text \<open>
  C6. The claim: the day that exhausts the distance carries the two dropoff events. The
  dropoff test compares \<open>day_idx\<close> with \<open>len(daily_plan) - 1\<close>, the number of keys of
  the day's dictionary, not the number of days. For the one-day trip of 500 miles in 9
  hours the single day (index 0, which exhausts the distance) gets no dropoff event: no
  event is at the dropoff location and none is a delivery event.
\<close>

theorem single_day_trip_has_no_dropoff_events:
  "daily_plans (generate_hos_compliant_plan 500 9 0) =
     [\<lparr> day = 1, driving_hours = 9, distance_miles = 500, fuel_stops = 0,
        mandatory_breaks = 1, total_on_duty = 11, pickup_dropoff_time = 2,
        is_final_day = None \<rparr>]
   \<and> map (\<lambda>e. (time e, status e, location e, event_notes e))
       (generate_duty_status_changes
          \<lparr> day = 1, driving_hours = 9, distance_miles = 500, fuel_stops = 0,
            mandatory_breaks = 1, total_on_duty = 11, pickup_dropoff_time = 2,
            is_final_day = None \<rparr> 0 ''Chicago'' ''Denver'' ''Atlanta'') =
     [((6, 15), ON_DUTY_NOT_DRIVING, ''Chicago'', ''Pre-trip inspection''),
      ((7, 0), ON_DUTY_NOT_DRIVING, ''Denver'', ''Arrived at pickup location''),
      ((8, 0), ON_DUTY_NOT_DRIVING, ''Denver'', ''Completed pickup - ready to drive''),
      ((8, 0), DRIVING, ''En route from Denver'', ''Begin driving''),
      ((16, 0), OFF_DUTY, ''Rest Area'', ''Mandatory 30-minute break after 8 hours driving''),
      ((16, 30), DRIVING, ''Approaching Atlanta'', ''Begin driving''),
      ((17, 45), ON_DUTY_NOT_DRIVING, ''Rest Area'', ''Post-trip inspection''),
      ((18, 0), OFF_DUTY, ''Rest Area'', ''Begin 10-hour off-duty period'')]"
  by (simp add: planner_defs plan_loop.simps expander_defs driving_loop.simps)

text \<open>
  C7. The claim: odometer readings never decrease over the events of a trip. Every event
  takes its base from \<open>_calculate_odometer(day_idx, [], 250000)\<close>, which is 250000 on
  every day because the list passed is empty. For the two-day trip of 1100 miles in 20
  hours the readings fall from 250050 to 250000 at the first driving event and from 250605
  back to 250000 at the start of the second day.
\<close>

theorem odometer_resets_each_day:
  "daily_plans (generate_hos_compliant_plan 1100 20 0) =
     [\<lparr> day = 1, driving_hours = 11, distance_miles = 605, fuel_stops = 0,
        mandatory_breaks = 1, total_on_duty = 12, pickup_dropoff_time = 2,
        is_final_day = None \<rparr>,
      \<lparr> day = 2, driving_hours = 9, distance_miles = 495, fuel_stops = 0,
        mandatory_breaks = 1, total_on_duty = 10, pickup_dropoff_time = 0,
        is_final_day = None \<rparr>]
   \<and> map odometer
       (generate_duty_status_changes
          \<lparr> day = 1, driving_hours = 11, distance_miles = 605, fuel_stops = 0,
            mandatory_breaks = 1, total_on_duty = 12, pickup_dropoff_time = 2,
            is_final_day = None \<rparr> 0 ''Chicago'' ''Denver'' ''Atlanta'')
     @ map odometer
       (generate_duty_status_changes
          \<lparr> day = 2, driving_hours = 9, distance_miles = 495, fuel_stops = 0,
            mandatory_breaks = 1, total_on_duty = 10, pickup_dropoff_time = 0,
            is_final_day = None \<rparr> 1 ''Chicago'' ''Denver'' ''Atlanta'')
     = [250000, 250050, 250050, 250000, 250440, 250440, 250605, 250605,
        250000, 250000, 250000, 250440, 250440, 250495, 250495]
   \<and> \<not> sorted [250000, 250050, 250050, 250000, 250440, 250440, 250605, 250605,
        250000, 250000, 250000, 250440, 250440, 250495, (250495::real)]"
  by (simp add: planner_defs plan_loop.simps expander_defs driving_loop.simps)






lemma driving_loop_12:
  assumes "driving_hours p = 12"
  shows "driving_loop p day_idx pl dl t dc 12 =
     (segment_events p day_idx pl dl t dc 12
        @ segment_events p day_idx pl dl (t + 510) (dc + segment_distance p 12) 4,
      t + 750)"
proof -
  have n1: "next_time t 12 = t + 510" by (simp add: next_time_def takes_break_def)
  have n2: "next_time (t + 510) 4 = t + 750" by (simp add: next_time_def takes_break_def)
  have s2: "driving_loop p day_idx pl dl (t + 510) (dc + segment_distance p 12) 4 =
     (segment_events p day_idx pl dl (t + 510) (dc + segment_distance p 12) 4, t + 750)"
    by (subst driving_loop_step) (simp_all add: n2 driving_loop_done)
  show ?thesis
    by (subst driving_loop_step) (simp_all add: n1 s2)
qed

lemma driving_total_12:
  assumes "driving_hours p = 12"
  shows "driving (calculate_daily_totals (generate_duty_status_changes p day_idx cl pl dl)) =
     12 - (if fuel_stops p > 0 \<and> segment_distance p 12 > 500 then 1 / 2 else 0)
        - (if fuel_stops p > 0 \<and> segment_distance p 4 > 500 then 1 / 2 else 0)
        + (if dropoff_day p day_idx then 0 else 1 / 4)"
  using assms
  by (simp add: generate_duty_status_changes_def Let_def driving_loop_12 segment_events_def
      takes_break_def calculate_daily_totals_def pair_duration_def strptime_HM_def
      strftime_HM_def)


lemma driving_total_12_over_cap:
  assumes "driving_hours p = 12"
    and "fuel_stops p \<le> 0 \<or> distance_miles p \<le> 1500 \<or> \<not> dropoff_day p day_idx"
  shows "driving (calculate_daily_totals (generate_duty_status_changes p day_idx cl pl dl)) > 11"
proof -
  have "segment_distance p 4 > 500 \<longleftrightarrow> distance_miles p > 1500"
    using assms(1) by (simp add: segment_distance_def)
  with assms(2) have "\<not> (fuel_stops p > 0 \<and> segment_distance p 4 > 500) \<or> \<not> dropoff_day p day_idx"
    by auto
  then show ?thesis
    unfolding driving_total_12 [OF assms(1)] by (auto split: if_splits)
qed

text \<open>
  C5, as stated, fails. A fuel stop is cut out of the driving segment (the clock advances by
  the segment only), so each inserted fuel stop moves half an hour from driving to on-duty
  time. A second day with 12 driving hours, 1800 miles, a fuel stop and the final-day flag
  gets a fuel stop in both segments: the log shows 11 driving hours and 13.5 on-duty hours,
  is reported compliant, and has no violation.
\<close>

theorem fuel_stops_hide_twelve_hour_day:
  "hos_compliant
     (day_log 739000 ''Chicago'' ''Denver'' ''Atlanta'' []  1
        \<lparr> day = 2, driving_hours = 12, distance_miles = 1800, fuel_stops = 1,
          mandatory_breaks = 1, total_on_duty = 25 / 2, pickup_dropoff_time = 0,
          is_final_day = Some True \<rparr>)
   \<and> violations
     (day_log 739000 ''Chicago'' ''Denver'' ''Atlanta'' [] 1
        \<lparr> day = 2, driving_hours = 12, distance_miles = 1800, fuel_stops = 1,
          mandatory_breaks = 1, total_on_duty = 25 / 2, pickup_dropoff_time = 0,
          is_final_day = Some True \<rparr>) = []
   \<and> total_drive_time
     (day_log 739000 ''Chicago'' ''Denver'' ''Atlanta'' [] 1
        \<lparr> day = 2, driving_hours = 12, distance_miles = 1800, fuel_stops = 1,
          mandatory_breaks = 1, total_on_duty = 25 / 2, pickup_dropoff_time = 0,
          is_final_day = Some True \<rparr>) = 11
   \<and> total_on_duty_time_log
     (day_log 739000 ''Chicago'' ''Denver'' ''Atlanta'' [] 1
        \<lparr> day = 2, driving_hours = 12, distance_miles = 1800, fuel_stops = 1,
          mandatory_breaks = 1, total_on_duty = 25 / 2, pickup_dropoff_time = 0,
          is_final_day = Some True \<rparr>) = 27 / 2"
  by (simp add: day_log_def check_hos_compliance_def check_violations_def
      generate_duty_status_changes_def Let_def driving_loop_12 segment_events_def
      segment_distance_def dropoff_day_def
      takes_break_def calculate_daily_totals_def pair_duration_def strptime_HM_def
      strftime_HM_def)

text \<open>
  C5, amended. The compliance flag of a day's log is exactly: driving total at most 11 and
  driving plus on-duty-not-driving total at most 14. A day with 12 driving hours is
  expanded without any re-validation (with a well-formed start date the generator returns
  one log per day), and when it gets at most one fuel stop or no dropoff (no fuel stops, or
  at most 1500 miles, or not a dropoff day) its log is not compliant and lists the
  violation of the 11-hour driving cap.
\<close>

theorem twelve_hour_day_flagged:
  "hos_compliant (day_log sd cl pl dl plans day_idx p) =
     (total_drive_time (day_log sd cl pl dl plans day_idx p) \<le> 11
      \<and> total_on_duty_time_log (day_log sd cl pl dl plans day_idx p) \<le> 14)
   \<and> (driving_hours p = 12
        \<and> (fuel_stops p \<le> 0 \<or> distance_miles p \<le> 1500 \<or> \<not> dropoff_day p day_idx) \<longrightarrow>
        \<not> hos_compliant (day_log sd cl pl dl plans day_idx p)
        \<and> ''Exceeded maximum daily driving time: ''
              @ format_fixed 1 (total_drive_time (day_log sd cl pl dl plans day_idx p))
              @ ''h > 11h''
            \<in> set (violations (day_log sd cl pl dl plans day_idx p)))
   \<and> map_sum id length (generate_daily_logs now tp (DateString sd))
       = Inr (length (daily_plans (trip_hos_plan tp)))"
proof -
  have a: "hos_compliant (day_log sd cl pl dl plans day_idx p) =
     (total_drive_time (day_log sd cl pl dl plans day_idx p) \<le> 11
      \<and> total_on_duty_time_log (day_log sd cl pl dl plans day_idx p) \<le> 14)"
    by (simp add: day_log_def Let_def check_hos_compliance_def add.commute)
  have b: "\<not> hos_compliant (day_log sd cl pl dl plans day_idx p)
        \<and> ''Exceeded maximum daily driving time: ''
              @ format_fixed 1 (total_drive_time (day_log sd cl pl dl plans day_idx p))
              @ ''h > 11h''
            \<in> set (violations (day_log sd cl pl dl plans day_idx p))"
    if "driving_hours p = 12"
      and "fuel_stops p \<le> 0 \<or> distance_miles p \<le> 1500 \<or> \<not> dropoff_day p day_idx"
    using driving_total_12_over_cap [OF that, of cl pl dl]
    by (simp add: day_log_def Let_def check_hos_compliance_def check_violations_def)
  have c: "map_sum id length (generate_daily_logs now tp (DateString sd))
       = Inr (length (daily_plans (trip_hos_plan tp)))"
    by (simp add: generate_daily_logs_def daily_logs_from_def Let_def)
  from a b c show ?thesis by blast
qed

theorem twelve_hour_day_flagged_witness:
  "driving_hours \<lparr> day = 1, driving_hours = 12, distance_miles = 660, fuel_stops = 0,
          mandatory_breaks = 1, total_on_duty = 14, pickup_dropoff_time = 2,
          is_final_day = None \<rparr> = 12
   \<and> fuel_stops \<lparr> day = 1, driving_hours = 12, distance_miles = 660, fuel_stops = 0,
          mandatory_breaks = 1, total_on_duty = 14, pickup_dropoff_time = 2,
          is_final_day = None \<rparr> \<le> 0
   \<and> \<not> hos_compliant
     (day_log 739000 ''Chicago'' ''Denver'' ''Atlanta'' [] 0
        \<lparr> day = 1, driving_hours = 12, distance_miles = 660, fuel_stops = 0,
          mandatory_breaks = 1, total_on_duty = 14, pickup_dropoff_time = 2,
          is_final_day = None \<rparr>)
   \<and> ''Exceeded maximum daily driving time: ''
         @ format_fixed 1 (total_drive_time
             (day_log 739000 ''Chicago'' ''Denver'' ''Atlanta'' [] 0
                \<lparr> day = 1, driving_hours = 12, distance_miles = 660, fuel_stops = 0,
                  mandatory_breaks = 1, total_on_duty = 14, pickup_dropoff_time = 2,
                  is_final_day = None \<rparr>))
         @ ''h > 11h''
       \<in> set (violations
          (day_log 739000 ''Chicago'' ''Denver'' ''Atlanta'' [] 0
             \<lparr> day = 1, driving_hours = 12, distance_miles = 660, fuel_stops = 0,
               mandatory_breaks = 1, total_on_duty = 14, pickup_dropoff_time = 2,
               is_final_day = None \<rparr>))"
proof -
  let ?p = "\<lparr> day = 1, driving_hours = 12, distance_miles = 660, fuel_stops = 0,
          mandatory_breaks = 1, total_on_duty = 14, pickup_dropoff_time = 2,
          is_final_day = None \<rparr>"
  have h1: "driving_hours ?p = 12" by simp
  have h2: "fuel_stops ?p \<le> 0" by simp
  from h1 h2 twelve_hour_day_flagged [of 739000 "''Chicago''" "''Denver''" "''Atlanta''" "[]" 0
      ?p 739000
      "\<lparr> trip_coordinates = \<lparr> current = None, pickup = None, dropoff = None \<rparr>,
         trip_hos_plan = generate_hos_compliant_plan 500 9 0 \<rparr>"]
  show ?thesis by blast
qed

lemma day_events_split:
  "generate_duty_status_changes p day_idx cl pl dl =
     opening_events day_idx cl pl
     @ fst (driving_loop p day_idx pl dl (driving_start day_idx) 0 (driving_hours p))
     @ closing_events p day_idx dl
         (snd (driving_loop p day_idx pl dl (driving_start day_idx) 0 (driving_hours p)))"
  by (simp add: generate_duty_status_changes_def opening_events_def driving_start_def
      closing_events_def Let_def split_beta)

lemma strptime_strftime:
  assumes "0 \<le> r" "r < 1440"
  shows "strptime_HM (strftime_HM r) = nat \<lfloor>r\<rfloor>"
proof -
  have "\<lfloor>r\<rfloor> < 1440" using assms(2) by (simp add: floor_less_iff)
  then have m: "nat \<lfloor>r\<rfloor> < 1440" by arith
  then have "nat \<lfloor>r\<rfloor> div 60 < 24" by arith
  then show ?thesis by (simp add: strptime_HM_def strftime_HM_def Let_def)
qed

lemma driving_loop_step_fst:
  "r > 0 \<Longrightarrow>
   fst (driving_loop p day_idx pl dl t dc r) =
     segment_events p day_idx pl dl t dc r @
     fst (driving_loop p day_idx pl dl (next_time t r) (dc + segment_distance p r) (r - min 8 r))"
  by (simp add: driving_loop_step split_beta)

lemma driving_loop_step_snd:
  "r > 0 \<Longrightarrow>
   snd (driving_loop p day_idx pl dl t dc r) =
     snd (driving_loop p day_idx pl dl (next_time t r) (dc + segment_distance p r) (r - min 8 r))"
  by (simp add: driving_loop_step split_beta)

lemma next_time_ge: "0 < r \<Longrightarrow> t + 60 * min 8 r \<le> next_time t r"
  by (simp add: next_time_def)

lemma driving_loop_time_mono: "t \<le> snd (driving_loop p day_idx pl dl t dc r)"
proof (induction p day_idx pl dl t dc r rule: driving_loop_induct)
  case (step p day_idx pl dl t dc r)
  show ?case
  proof (cases "r > 0")
    case False
    then show ?thesis by (simp add: driving_loop_done)
  next
    case True
    have "t \<le> next_time t r" using next_time_ge [OF True, of t] True by (simp add: min_def split: if_splits)
    also have "\<dots> \<le> snd (driving_loop p day_idx pl dl (next_time t r)
                  (dc + segment_distance p r) (r - min 8 r))" using step [OF True] .
    finally show ?thesis by (simp add: driving_loop_step_snd [OF True])
  qed
qed

lemma driving_loop_end_bound:
  "snd (driving_loop p day_idx pl dl t dc r) \<le> t + (255 / 4) * max r 0"
proof (induction p day_idx pl dl t dc r rule: driving_loop_induct)
  case (step p day_idx pl dl t dc r)
  show ?case
  proof (cases "r > 0")
    case False
    then show ?thesis by (simp add: driving_loop_done)
  next
    case True
    have "snd (driving_loop p day_idx pl dl t dc r) =
          snd (driving_loop p day_idx pl dl (next_time t r)
                  (dc + segment_distance p r) (r - min 8 r))"
      by (rule driving_loop_step_snd [OF True])
    also have "\<dots> \<le> next_time t r + (255 / 4) * max (r - min 8 r) 0" using step [OF True] .
    also have "\<dots> \<le> t + (255 / 4) * max r 0"
    proof (cases "r \<le> 8")
      case le: True
      then have "next_time t r = t + 60 * r" "max (r - min 8 r) 0 = 0" "max r 0 = r"
        using True by (simp_all add: next_time_def takes_break_def)
      then show ?thesis using True by simp
    next
      case gt: False
      then have e: "next_time t r = t + 510" "max (r - min 8 r) 0 = r - 8" "max r 0 = r"
        by (simp_all add: next_time_def takes_break_def)
      show ?thesis unfolding e by (simp add: right_diff_distrib)
    qed
    finally show ?thesis .
  qed
qed


lemma fuel_segment_long:
  assumes "0 < r" "0 < driving_hours p"
    and "fuel_stops p \<le> 0 \<or> distance_miles p \<le> 500 * driving_hours p"
    and "fuel_stops p > 0 \<and> segment_distance p r > 500"
  shows "1 \<le> min 8 r"
proof -
  have s: "0 < min 8 r" using assms(1) by simp
  from assms(3,4) have d: "distance_miles p \<le> 500 * driving_hours p" by auto
  have "0 \<le> min 8 r / driving_hours p" using s assms(2) by simp
  then have "min 8 r / driving_hours p * distance_miles p
      \<le> min 8 r / driving_hours p * (500 * driving_hours p)"
    using d by (rule mult_left_mono [rotated])
  also have "\<dots> = 500 * min 8 r" using assms(2) by simp
  finally have "segment_distance p r \<le> 500 * min 8 r" by (simp add: segment_distance_def)
  with assms(4) show ?thesis by linarith
qed

lemma segment_minutes:
  "map minute_of (segment_events p day_idx pl dl t dc r) =
     map (\<lambda>x. strptime_HM (strftime_HM x))
       ([t] @ (if fuel_stops p > 0 \<and> segment_distance p r > 500
               then [t + 60 * (min 8 r / 2), t + 60 * (min 8 r / 2) + 30] else [])
            @ (if takes_break r then [t + 60 * min 8 r] else []))"
  by (simp add: segment_events_def minute_of_def)

lemma opening_minutes:
  "map minute_of (opening_events day_idx cl pl) =
     map (\<lambda>x. strptime_HM (strftime_HM x))
       ((if day_idx > 0 then [360] else []) @ [360 + 15]
         @ (if day_idx = 0 then [360 + 15 + 45, 360 + 15 + 45 + 60] else []))"
  by (simp add: opening_events_def minute_of_def)

lemma closing_minutes:
  "map minute_of (closing_events p day_idx dl t3) =
     map (\<lambda>x. strptime_HM (strftime_HM x))
       ((if dropoff_day p day_idx then [t3, t3 + 60] else [])
         @ [(if dropoff_day p day_idx then t3 + 60 else t3) + 15,
            (if dropoff_day p day_idx then t3 + 60 else t3) + 15 + 15])"
  by (simp add: closing_events_def minute_of_def)

lemma stamps_strict:
  assumes "sorted_wrt (\<lambda>a b. a + 1 \<le> b) xs" and "\<forall>x \<in> set xs. lo \<le> x \<and> x \<le> hi"
    and "0 \<le> lo" and "hi < 1440"
  shows "sorted_wrt (<) (map (\<lambda>x. strptime_HM (strftime_HM x)) xs)
     \<and> (\<forall>m \<in> set (map (\<lambda>x. strptime_HM (strftime_HM x)) xs). nat \<lfloor>lo\<rfloor> \<le> m \<and> m \<le> nat \<lfloor>hi\<rfloor>)"
proof -
  have st: "strptime_HM (strftime_HM x) = nat \<lfloor>x\<rfloor>" if "x \<in> set xs" for x
    using that assms(2,3,4) by (intro strptime_strftime) force+
  have eq: "map (\<lambda>x. strptime_HM (strftime_HM x)) xs = map (\<lambda>x. nat \<lfloor>x\<rfloor>) xs"
    using st by simp
  have step: "nat \<lfloor>a\<rfloor> < nat \<lfloor>b\<rfloor>" if "a + 1 \<le> b" "0 \<le> a" for a b :: real
  proof -
    have "\<lfloor>a\<rfloor> + 1 \<le> \<lfloor>b\<rfloor>" using that(1) by linarith
    moreover have "0 \<le> \<lfloor>a\<rfloor>" using that(2) by simp
    ultimately show ?thesis by linarith
  qed
  have nonneg: "0 \<le> x" if "x \<in> set xs" for x using that assms(2,3) by force
  have "sorted_wrt (\<lambda>a b. nat \<lfloor>a\<rfloor> < nat \<lfloor>b\<rfloor>) xs"
    using assms(1) by (rule sorted_wrt_mono_rel [rotated]) (rule step, simp_all add: nonneg)
  then have "sorted_wrt (<) (map (\<lambda>x. nat \<lfloor>x\<rfloor>) xs)"
    by (simp only: sorted_wrt_map)
  moreover have "nat \<lfloor>lo\<rfloor> \<le> nat \<lfloor>x\<rfloor> \<and> nat \<lfloor>x\<rfloor> \<le> nat \<lfloor>hi\<rfloor>" if "x \<in> set xs" for x
    using that assms(2) by (auto intro!: nat_mono floor_mono)
  ultimately show ?thesis unfolding eq by auto
qed

lemma segment_events_strict:
  assumes r: "0 < r" and t: "0 \<le> t" and n: "next_time t r < 1440"
    and dh: "0 < driving_hours p"
    and sp: "fuel_stops p \<le> 0 \<or> distance_miles p \<le> 500 * driving_hours p"
  shows "sorted_wrt (<) (map minute_of (segment_events p day_idx pl dl t dc r))
     \<and> (\<forall>m \<in> set (map minute_of (segment_events p day_idx pl dl t dc r)).
          nat \<lfloor>t\<rfloor> \<le> m \<and> m \<le> nat \<lfloor>t + 60 * min 8 r\<rfloor>)"
proof -
  define s where "s = min 8 r"
  define xs where "xs = [t] @ (if fuel_stops p > 0 \<and> segment_distance p r > 500
               then [t + 60 * (s / 2), t + 60 * (s / 2) + 30] else [])
            @ (if takes_break r then [t + 60 * s] else [])"
  have s0: "0 < s" using r by (simp add: s_def)
  have a3N: "t + 60 * s \<le> next_time t r" unfolding s_def by (rule next_time_ge [OF r])
  have s1: "1 \<le> s" if "fuel_stops p > 0 \<and> segment_distance p r > 500"
    unfolding s_def using fuel_segment_long [OF r dh sp that] .
  have s8: "s = 8" if "takes_break r" using that by (simp add: takes_break_def s_def)
  have "sorted_wrt (\<lambda>a b. a + 1 \<le> b) xs \<and> (\<forall>x \<in> set xs. t \<le> x \<and> x \<le> t + 60 * s)"
  proof (cases "fuel_stops p > 0 \<and> segment_distance p r > 500")
    case True
    from s1 [OF True] s0 s8 show ?thesis
      unfolding xs_def by (cases "takes_break r") (simp_all add: True)
  next
    case False
    from s0 s8 show ?thesis
      unfolding xs_def by (cases "takes_break r") (simp_all add: False)
  qed
  then have "sorted_wrt (<) (map (\<lambda>x. strptime_HM (strftime_HM x)) xs)
     \<and> (\<forall>m \<in> set (map (\<lambda>x. strptime_HM (strftime_HM x)) xs).
           nat \<lfloor>t\<rfloor> \<le> m \<and> m \<le> nat \<lfloor>t + 60 * s\<rfloor>)"
    using t n a3N by (intro stamps_strict) simp_all
  then show ?thesis
    unfolding segment_minutes xs_def s_def .
qed


lemma driving_loop_strict:
  "0 < driving_hours p \<Longrightarrow>
   fuel_stops p \<le> 0 \<or> distance_miles p \<le> 500 * driving_hours p \<Longrightarrow>
   0 \<le> t \<Longrightarrow> snd (driving_loop p day_idx pl dl t dc r) < 1440 \<Longrightarrow>
   sorted_wrt (<) (map minute_of (fst (driving_loop p day_idx pl dl t dc r)))
   \<and> (\<forall>m \<in> set (map minute_of (fst (driving_loop p day_idx pl dl t dc r))).
          nat \<lfloor>t\<rfloor> \<le> m \<and> m \<le> nat \<lfloor>snd (driving_loop p day_idx pl dl t dc r)\<rfloor>)"
proof (induction p day_idx pl dl t dc r rule: driving_loop_induct)
  case (step p day_idx pl dl t dc r)
  show ?case
  proof (cases "r > 0")
    case False
    then show ?thesis by (simp add: driving_loop_done)
  next
    case True
    define N where "N = next_time t r"
    define M where "M = t + 60 * min 8 r"
    define E where "E = map minute_of (segment_events p day_idx pl dl t dc r)"
    define L where "L = map minute_of (fst (driving_loop p day_idx pl dl N
                  (dc + segment_distance p r) (r - min 8 r)))"
    define T where "T = snd (driving_loop p day_idx pl dl t dc r)"
    have T': "snd (driving_loop p day_idx pl dl N (dc + segment_distance p r) (r - min 8 r)) = T"
      unfolding T_def N_def by (rule driving_loop_step_snd [OF True, symmetric])
    have tM: "t \<le> M" unfolding M_def using True by simp
    have MN: "M \<le> N" unfolding M_def N_def by (rule next_time_ge [OF True])
    have NT: "N \<le> T" unfolding T' [symmetric] by (rule driving_loop_time_mono)
    have T: "T < 1440" using step.prems(4) by (simp add: T_def)
    have N0: "0 \<le> N" using tM MN step.prems(3) by linarith
    have seg: "sorted_wrt (<) E \<and> (\<forall>m \<in> set E. nat \<lfloor>t\<rfloor> \<le> m \<and> m \<le> nat \<lfloor>M\<rfloor>)"
      unfolding E_def M_def
      using NT T by (intro segment_events_strict True step.prems) (simp add: N_def)
    have later: "sorted_wrt (<) L \<and> (\<forall>m \<in> set L. nat \<lfloor>N\<rfloor> \<le> m \<and> m \<le> nat \<lfloor>T\<rfloor>)"
      using step.IH [OF True step.prems(1,2)] N0 T unfolding N_def [symmetric] T' L_def by simp
    have fl: "nat \<lfloor>t\<rfloor> \<le> nat \<lfloor>N\<rfloor>" "nat \<lfloor>M\<rfloor> \<le> nat \<lfloor>T\<rfloor>"
      using tM MN NT by (auto intro!: nat_mono floor_mono)
    have gap: "nat \<lfloor>M\<rfloor> < nat \<lfloor>N\<rfloor>" if "L \<noteq> []"
    proof -
      have "r - min 8 r > 0"
      proof (rule ccontr)
        assume "\<not> r - min 8 r > 0"
        then have "L = []" unfolding L_def by (simp add: driving_loop_done)
        with that show False by simp
      qed
      then have "takes_break r" by (auto simp: takes_break_def min_def split: if_splits)
      then have "N = M + 30" by (simp add: N_def M_def next_time_def)
      moreover have "0 \<le> M" using tM step.prems(3) by linarith
      ultimately show ?thesis by linarith
    qed
    have cross: "x < y" if "x \<in> set E" "y \<in> set L" for x y
    proof -
      have "L \<noteq> []" using that(2) by auto
      from seg that(1) have "x \<le> nat \<lfloor>M\<rfloor>" by blast
      moreover from later that(2) have "nat \<lfloor>N\<rfloor> \<le> y" by blast
      ultimately show ?thesis using gap [OF \<open>L \<noteq> []\<close>] by linarith
    qed
    have split: "map minute_of (fst (driving_loop p day_idx pl dl t dc r)) = E @ L"
      unfolding E_def L_def N_def by (simp add: driving_loop_step_fst [OF True])
    have "sorted_wrt (<) (E @ L)"
      using seg later cross by (simp add: sorted_wrt_append)
    moreover have "\<forall>m \<in> set (E @ L). nat \<lfloor>t\<rfloor> \<le> m \<and> m \<le> nat \<lfloor>T\<rfloor>"
      using seg later fl by fastforce
    ultimately show ?thesis unfolding split T_def by blast
  qed
qed

lemma driving_loop_end_two_segments:
  assumes "r \<le> 16"
  shows "snd (driving_loop p day_idx pl dl t dc r) \<le> t + 60 * max r 0 + 30"
proof (cases "r > 0")
  case False
  then show ?thesis by (simp add: driving_loop_done)
next
  case True
  show ?thesis
  proof (cases "r \<le> 8")
    case le: True
    then have "next_time t r = t + 60 * r" "\<not> r - min 8 r > 0"
      using True by (simp_all add: next_time_def takes_break_def)
    then show ?thesis using True by (simp add: driving_loop_step_snd [OF True] driving_loop_done)
  next
    case gt: False
    then have n: "next_time t r = t + 510" "r - min 8 r = r - 8"
      by (simp_all add: next_time_def takes_break_def)
    have r2: "0 < r - 8" "r - 8 \<le> 8" using gt assms by simp_all
    then have "next_time (t + 510) (r - 8) = t + 510 + 60 * (r - 8)" "\<not> r - 8 - min 8 (r - 8) > 0"
      by (simp_all add: next_time_def takes_break_def)
    then have "snd (driving_loop p day_idx pl dl t dc r) = t + 510 + 60 * (r - 8)"
      by (simp add: driving_loop_step_snd [OF True] n driving_loop_step_snd [OF r2(1)]
          driving_loop_done)
    then show ?thesis using True by simp
  qed
qed


lemma strict_block:
  assumes "sorted_wrt (<) (map minute_of es)"
  shows "successively (\<lambda>a b. minute_of a < minute_of b \<or> tie_allowed a b) es"
proof -
  from assms have "sorted_wrt (\<lambda>a b. minute_of a < minute_of b) es"
    by (simp only: sorted_wrt_map)
  then have "successively (\<lambda>a b. minute_of a < minute_of b) es"
    by (rule successively_if_sorted_wrt)
  then show ?thesis by (rule successively_mono) simp
qed

lemma last_opening:
  "opening_events day_idx cl pl \<noteq> []"
  "status (last (opening_events day_idx cl pl)) = ON_DUTY_NOT_DRIVING"
  "minute_of (last (opening_events day_idx cl pl))
     = strptime_HM (strftime_HM (driving_start day_idx))"
  by (simp_all add: opening_events_def driving_start_def minute_of_def)

lemma hd_closing:
  "closing_events p day_idx dl t3 \<noteq> []"
  "dropoff_day p day_idx \<Longrightarrow>
     event_notes (hd (closing_events p day_idx dl t3)) = ''Arrived at delivery location''"
  "\<not> dropoff_day p day_idx \<Longrightarrow>
     minute_of (hd (closing_events p day_idx dl t3)) = strptime_HM (strftime_HM (t3 + 15))"
  by (simp_all add: closing_events_def minute_of_def)

lemma hd_driving:
  assumes "r > 0"
  shows "fst (driving_loop p day_idx pl dl t dc r) \<noteq> []"
    and "status (hd (fst (driving_loop p day_idx pl dl t dc r))) = DRIVING"
    and "event_notes (hd (fst (driving_loop p day_idx pl dl t dc r))) = ''Begin driving''"
  by (simp_all add: driving_loop_step_fst [OF assms] segment_events_def)

lemma day_minutes_order:
  assumes h: "driving_hours p < 14"
    and sp: "fuel_stops p \<le> 0 \<or> distance_miles p \<le> 500 * driving_hours p"
  shows "sorted (map minute_of (generate_duty_status_changes p day_idx cl pl dl))
     \<and> successively (\<lambda>a b. minute_of a < minute_of b \<or> tie_allowed a b)
          (generate_duty_status_changes p day_idx cl pl dl)"
proof -
  define t2 where "t2 = driving_start day_idx"
  define Dev where "Dev = fst (driving_loop p day_idx pl dl t2 0 (driving_hours p))"
  define t3 where "t3 = snd (driving_loop p day_idx pl dl t2 0 (driving_hours p))"
  define Aev where "Aev = opening_events day_idx cl pl"
  define Cev where "Cev = closing_events p day_idx dl t3"
  define A where "A = map minute_of Aev"
  define D where "D = map minute_of Dev"
  define C where "C = map minute_of Cev"
  let ?Q = "\<lambda>a b. minute_of a < minute_of b \<or> tie_allowed a b"
  have t2: "360 \<le> t2" "t2 \<le> 480" by (simp_all add: t2_def driving_start_def)
  have t23: "t2 \<le> t3" unfolding t3_def by (rule driving_loop_time_mono)
  have "t3 \<le> t2 + 60 * max (driving_hours p) 0 + 30"
    unfolding t3_def using h by (intro driving_loop_end_two_segments) simp
  also have "\<dots> < t2 + 60 * 14 + 30" using h by simp
  finally have t3: "t3 < 1350" using t2 by simp
  have st: "strptime_HM (strftime_HM x) = nat \<lfloor>x\<rfloor>" if "0 \<le> x" "x < 1440" for x
    using that by (rule strptime_strftime)
  have A: "sorted_wrt (<) A \<and> (\<forall>m \<in> set A. nat \<lfloor>360::real\<rfloor> \<le> m \<and> m \<le> nat \<lfloor>t2\<rfloor>)"
    unfolding A_def Aev_def opening_minutes
    by (rule stamps_strict) (simp_all add: t2_def driving_start_def)
  have C: "sorted_wrt (<) C \<and> (\<forall>m \<in> set C. nat \<lfloor>t3\<rfloor> \<le> m \<and> m \<le> nat \<lfloor>t3 + 90\<rfloor>)"
    unfolding C_def Cev_def closing_minutes
    using t2 t23 t3 by (intro stamps_strict) simp_all
  have D: "sorted_wrt (<) D \<and> (\<forall>m \<in> set D. nat \<lfloor>t2\<rfloor> \<le> m \<and> m \<le> nat \<lfloor>t3\<rfloor>)"
  proof (cases "0 < driving_hours p")
    case True
    show ?thesis unfolding D_def Dev_def t3_def
      using t2 t3 by (intro driving_loop_strict True sp) (simp_all add: t3_def)
  next
    case False
    then show ?thesis by (simp add: D_def Dev_def driving_loop_done)
  qed
  have split: "generate_duty_status_changes p day_idx cl pl dl = Aev @ Dev @ Cev"
    by (simp add: day_events_split Aev_def Dev_def Cev_def t2_def t3_def)
  have fl: "nat \<lfloor>t2\<rfloor> \<le> nat \<lfloor>t3\<rfloor>" using t23 by (auto intro!: nat_mono floor_mono)
  have sA: "sorted A" and sD: "sorted D" and sC: "sorted C"
    using A D C by (auto intro: strict_sorted_imp_sorted)
  have "sorted (A @ D @ C)"
    using sA sD sC A D C fl by (fastforce simp: sorted_append)
  then have part1: "sorted (map minute_of (generate_duty_status_changes p day_idx cl pl dl))"
    unfolding split by (simp add: A_def D_def C_def)
  have QA: "successively ?Q Aev" using A unfolding A_def by (intro strict_block) simp
  have QD: "successively ?Q Dev" using D unfolding D_def by (intro strict_block) simp
  have QC: "successively ?Q Cev" using C unfolding C_def by (intro strict_block) simp
  have Ane: "Aev \<noteq> []" and Cne: "Cev \<noteq> []"
    by (simp_all add: Aev_def Cev_def last_opening hd_closing)
  have lastA: "status (last Aev) = ON_DUTY_NOT_DRIVING" "minute_of (last Aev) = nat \<lfloor>t2\<rfloor>"
    using t2 by (simp_all add: Aev_def last_opening t2_def [symmetric] st)
  have step15: "nat \<lfloor>x\<rfloor> < nat \<lfloor>x + 15\<rfloor>" if "0 \<le> x" for x :: real
  proof -
    have "\<lfloor>x\<rfloor> + 15 = \<lfloor>x + 15\<rfloor>" by linarith
    moreover have "0 \<le> \<lfloor>x\<rfloor>" using that by simp
    ultimately show ?thesis by linarith
  qed
  have intoC: "?Q e (hd Cev)" if "minute_of e \<le> nat \<lfloor>t3\<rfloor>" for e
  proof (cases "dropoff_day p day_idx")
    case True
    then show ?thesis by (simp add: Cev_def hd_closing tie_allowed_def)
  next
    case False
    have "minute_of (hd Cev) = nat \<lfloor>t3 + 15\<rfloor>"
      using False t2 t23 t3 by (simp add: Cev_def hd_closing st)
    moreover have "nat \<lfloor>t3\<rfloor> < nat \<lfloor>t3 + 15\<rfloor>" using t2 t23 by (intro step15) linarith
    ultimately show ?thesis using that by linarith
  qed
  have part2: "successively ?Q (Aev @ Dev @ Cev)"
  proof (cases "0 < driving_hours p")
    case True
    have Dne: "Dev \<noteq> []" and hdD: "status (hd Dev) = DRIVING"
      "event_notes (hd Dev) = ''Begin driving''"
      unfolding Dev_def using hd_driving [OF True] by blast+
    have j1: "?Q (last Aev) (hd Dev)" using lastA hdD by (simp add: tie_allowed_def)
    have "last Dev \<in> set Dev" using Dne by simp
    then have "minute_of (last Dev) \<in> set D" unfolding D_def by simp
    then have "minute_of (last Dev) \<le> nat \<lfloor>t3\<rfloor>" using D by blast
    then have j2: "?Q (last Dev) (hd Cev)" by (rule intoC)
    show ?thesis using QA QD QC Ane Dne Cne j1 j2
      by (simp add: successively_append_iff)
  next
    case False
    then have Dnil: "Dev = []" and "t3 = t2"
      by (simp_all add: Dev_def t3_def driving_loop_done)
    then have "minute_of (last Aev) \<le> nat \<lfloor>t3\<rfloor>" using lastA by simp
    then have "?Q (last Aev) (hd Cev)" by (rule intoC)
    then show ?thesis using QA QC Dnil by (simp add: successively_append_iff)
  qed
  from part1 part2 show ?thesis unfolding split by blast
qed

text \<open>
  Three days at the edges of the ordering theorem below. With 14 driving hours on a first
  day flagged as final the closing event falls on midnight and is stamped 00:00. With a fuel
  stop in a quarter-hour segment the resume event (06:52) is stamped after the post-trip
  inspection (06:45). On a flagged day without driving the arrival at the delivery location
  carries the time of the pre-trip inspection before it.
\<close>

lemma fourteen_hour_day_reaches_midnight:
  "map time (generate_duty_status_changes
      \<lparr> day = 1, driving_hours = 14, distance_miles = 700, fuel_stops = 0,
        mandatory_breaks = 1, total_on_duty = 16, pickup_dropoff_time = 2,
        is_final_day = Some True \<rparr> 0 ''Chicago'' ''Denver'' ''Atlanta'')
   = [(6, 15), (7, 0), (8, 0), (8, 0), (16, 0), (16, 30), (22, 30), (23, 30), (23, 45), (0, 0)]"
  by (simp add: expander_defs driving_loop.simps)

lemma fuel_stop_stamped_after_short_segment:
  "map time (generate_duty_status_changes
      \<lparr> day = 2, driving_hours = 1 / 4, distance_miles = 600, fuel_stops = 1,
        mandatory_breaks = 0, total_on_duty = 3 / 4, pickup_dropoff_time = 0,
        is_final_day = None \<rparr> 1 ''Chicago'' ''Denver'' ''Atlanta'')
   = [(6, 0), (6, 15), (6, 15), (6, 22), (6, 52), (6, 45), (7, 0)]"
  by (simp add: expander_defs driving_loop.simps)

lemma arrival_ties_without_driving:
  "map (\<lambda>e. (time e, event_notes e)) (generate_duty_status_changes
      \<lparr> day = 2, driving_hours = 0, distance_miles = 0, fuel_stops = 0,
        mandatory_breaks = 0, total_on_duty = 1, pickup_dropoff_time = 0,
        is_final_day = Some True \<rparr> 1 ''Chicago'' ''Denver'' ''Atlanta'')
   = [((6, 0), ''End of required 10-hour off-duty period''),
      ((6, 15), ''Pre-trip inspection''),
      ((6, 15), ''Arrived at delivery location''),
      ((7, 15), ''Completed delivery''),
      ((7, 30), ''Post-trip inspection''),
      ((7, 45), ''Begin 10-hour off-duty period'')]"
  by (simp add: expander_defs driving_loop.simps)

text \<open>
  C8, as stated, fails: on the first day the pickup-completion event and the first driving
  event carry the same time, 08:00.
\<close>

theorem pickup_and_driving_share_a_time:
  "map time
     (duty_status_changes
        (day_log 739000 ''Chicago'' ''Denver'' ''Atlanta'' [] 0
           \<lparr> day = 1, driving_hours = 9, distance_miles = 500, fuel_stops = 0,
             mandatory_breaks = 1, total_on_duty = 11, pickup_dropoff_time = 2,
             is_final_day = None \<rparr>))
     = [(6, 15), (7, 0), (8, 0), (8, 0), (16, 0), (16, 30), (17, 45), (18, 0)]
   \<and> \<not> sorted_wrt (<) (map minute_of
     (duty_status_changes
        (day_log 739000 ''Chicago'' ''Denver'' ''Atlanta'' [] 0
           \<lparr> day = 1, driving_hours = 9, distance_miles = 500, fuel_stops = 0,
             mandatory_breaks = 1, total_on_duty = 11, pickup_dropoff_time = 2,
             is_final_day = None \<rparr>)))"
  by (simp add: day_log_def expander_defs driving_loop.simps minute_of_def strptime_HM_def)

text \<open>
  C8, amended. The events of a day's log are the generator's list as produced, with no
  re-sorting; their times are in non-decreasing order; and every event is strictly later
  than the event before it, except that the first \<open>Begin driving\<close> of the day carries the
  time of the on-duty event before it and that the arrival at the delivery location may
  carry the time of the event before it. This holds for every daily plan with fewer than
  14 driving hours (so that the day ends before midnight) and either no fuel stops or at
  most 500 miles per driving hour (so that a fuel stop falls inside its segment).
\<close>

theorem day_events_chronological:
  assumes "driving_hours p < 14"
    and "fuel_stops p \<le> 0 \<or> distance_miles p \<le> 500 * driving_hours p"
  shows "duty_status_changes (day_log sd cl pl dl plans day_idx p)
           = generate_duty_status_changes p day_idx cl pl dl
         \<and> sorted (map minute_of (duty_status_changes (day_log sd cl pl dl plans day_idx p)))
         \<and> successively (\<lambda>a b. minute_of a < minute_of b \<or> tie_allowed a b)
              (duty_status_changes (day_log sd cl pl dl plans day_idx p))"
  using day_minutes_order [OF assms] by (simp add: day_log_def Let_def)

theorem day_events_chronological_witness:
  "driving_hours \<lparr> day = 1, driving_hours = 9, distance_miles = 500, fuel_stops = 0,
             mandatory_breaks = 1, total_on_duty = 11, pickup_dropoff_time = 2,
             is_final_day = None \<rparr> < 14
   \<and> fuel_stops \<lparr> day = 1, driving_hours = 9, distance_miles = 500, fuel_stops = 0,
             mandatory_breaks = 1, total_on_duty = 11, pickup_dropoff_time = 2,
             is_final_day = None \<rparr> \<le> 0
   \<and> sorted (map minute_of
     (duty_status_changes
        (day_log 739000 ''Chicago'' ''Denver'' ''Atlanta'' [] 0
           \<lparr> day = 1, driving_hours = 9, distance_miles = 500, fuel_stops = 0,
             mandatory_breaks = 1, total_on_duty = 11, pickup_dropoff_time = 2,
             is_final_day = None \<rparr>)))
   \<and> successively (\<lambda>a b. minute_of a < minute_of b \<or> tie_allowed a b)
     (duty_status_changes
        (day_log 739000 ''Chicago'' ''Denver'' ''Atlanta'' [] 0
           \<lparr> day = 1, driving_hours = 9, distance_miles = 500, fuel_stops = 0,
             mandatory_breaks = 1, total_on_duty = 11, pickup_dropoff_time = 2,
             is_final_day = None \<rparr>))"
proof -
  let ?p = "\<lparr> day = 1, driving_hours = 9, distance_miles = 500, fuel_stops = 0,
             mandatory_breaks = 1, total_on_duty = 11, pickup_dropoff_time = 2,
             is_final_day = None \<rparr>"
  have h1: "driving_hours ?p < 14" by simp
  have h2: "fuel_stops ?p \<le> 0" by simp
  then have h2': "fuel_stops ?p \<le> 0 \<or> distance_miles ?p \<le> 500 * driving_hours ?p" ..
  from day_events_chronological [OF h1 h2', of 739000 "''Chicago''" "''Denver''" "''Atlanta''"
      "[]" 0] h1 h2
  show ?thesis by blast
qed

end
